theory Spec2Isabelle
  imports Complex_Main
begin

section \<open>InjuryShield: the streaming decision-and-dispatch core\<close>

text \<open>
  The development embeds the per-frame pipeline of \<^verbatim>\<open>app/routes.py\<close>
  (\<^verbatim>\<open>analyze_frame_for_ppe_status\<close>, \<^verbatim>\<open>generate_frames\<close>), the alert manager of
  \<^verbatim>\<open>app/alerts/alert_logic.py\<close> and the older copy of the frame analysis kept in
  \<^verbatim>\<open>app/detection/detector.py\<close>.

  Conventions. Python's \<^verbatim>\<open>time.time()\<close> readings, confidences and box coordinates
  are floats in the source and exact reals here. Counts obtained by counting list
  elements are \<open>nat\<close>; configured integers and the global streak counter are \<open>int\<close>.
  Every collaborator (frame source, detector, database, snapshot writer, SMS gateway,
  clock) is an input of the model: a record of what each call returns in that
  iteration. Every call made to a collaborator is an entry of the returned trace.
\<close>

subsection \<open>Python string operations\<close>

text \<open>\<^verbatim>\<open>s.startswith(p)\<close>.\<close>

fun startswith :: "string \<Rightarrow> string \<Rightarrow> bool" where
  "startswith s [] = True"
| "startswith [] (p # ps) = False"
| "startswith (c # cs) (p # ps) = (c = p \<and> startswith cs ps)"

text \<open>\<^verbatim>\<open>p in s\<close> for strings: \<open>p\<close> occurs in \<open>s\<close> as a contiguous substring.\<close>

fun str_contains :: "string \<Rightarrow> string \<Rightarrow> bool" where
  "str_contains [] p = (p = [])"
| "str_contains (c # cs) p = (startswith (c # cs) p \<or> str_contains cs p)"

text \<open>
  \<^verbatim>\<open>s.replace(old, new)\<close>: every non-overlapping occurrence of \<open>old\<close>, scanning from
  the left. For the empty pattern Python puts \<open>new\<close> before every character and at
  the end.
\<close>

function replace_nonempty :: "string \<Rightarrow> string \<Rightarrow> string \<Rightarrow> string" where
  "replace_nonempty old new s =
     (if s = [] \<or> old = [] then s
      else if startswith s old then new @ replace_nonempty old new (drop (length old) s)
      else hd s # replace_nonempty old new (tl s))"
  by pat_completeness auto
termination
  by (relation "measure (\<lambda>(old, new, s). length s)") auto

declare replace_nonempty.simps [simp del]

definition str_replace :: "string \<Rightarrow> string \<Rightarrow> string \<Rightarrow> string" where
  "str_replace s old new =
     (if old = [] then new @ concat (map (\<lambda>c. c # new) s)
      else replace_nonempty old new s)"

text \<open>\<^verbatim>\<open>str(n)\<close> of a non-negative integer: its decimal digits.\<close>

definition digit_char :: "nat \<Rightarrow> char" where
  "digit_char d = ''0123456789'' ! d"

fun str_nat :: "nat \<Rightarrow> string" where
  "str_nat n = (if n < 10 then [digit_char n] else str_nat (n div 10) @ [digit_char (n mod 10)])"

declare str_nat.simps [simp del]

text \<open>\<^verbatim>\<open>sep.join(parts)\<close>.\<close>

fun str_join :: "string \<Rightarrow> string list \<Rightarrow> string" where
  "str_join sep [] = []"
| "str_join sep [p] = p"
| "str_join sep (p # q # ps) = p @ sep @ str_join sep (q # ps)"

subsection \<open>Detections and the frame analysis\<close>

text \<open>
  A detection as \<^verbatim>\<open>PPEDetector.detect\<close> builds it: a dictionary with exactly the keys
  \<^verbatim>\<open>box\<close>, \<^verbatim>\<open>confidence\<close>, \<^verbatim>\<open>class_id\<close> and \<^verbatim>\<open>class_name\<close>.
\<close>

record detection =
  box :: "real list"
  confidence :: real
  class_id :: int
  class_name :: string

text \<open>An entry of \<^verbatim>\<open>violation_details\<close>.\<close>

record violation_detail =
  violation_type :: string
  location_box :: "real list"
  vd_confidence :: real
  severity :: int

text \<open>
  The five values \<^verbatim>\<open>analyze_frame_for_ppe_status\<close> returns.
\<close>

record frame_analysis =
  person_count :: nat
  ppe_worn_count :: nat
  violations_count :: nat
  status_message :: string
  violation_details :: "violation_detail list"

text \<open>
  \<^verbatim>\<open>app/routes.py\<close>, step 1: a detection is a person, else possibly a worn item
  (an \<^verbatim>\<open>if\<close> followed by an \<^verbatim>\<open>elif\<close>).
\<close>

fun count_persons :: "detection list \<Rightarrow> nat" where
  "count_persons [] = 0"
| "count_persons (det # dets) =
     (if class_name det = ''person'' then 1 else 0) + count_persons dets"

fun count_ppe_worn :: "detection list \<Rightarrow> nat" where
  "count_ppe_worn [] = 0"
| "count_ppe_worn (det # dets) =
     (if class_name det = ''person'' then 0
      else if class_name det \<in> set [''helmet'', ''vest'', ''gloves''] then 1 else 0)
     + count_ppe_worn dets"

text \<open>
  Step 2: every detection whose class name starts with \<^verbatim>\<open>no-\<close> appends one entry;
  the severity is \<^verbatim>\<open>3 if 'helmet' in class_name else 2\<close>.
\<close>

definition routes_violation_of :: "detection \<Rightarrow> violation_detail" where
  "routes_violation_of det =
     \<lparr>violation_type = class_name det,
      location_box = box det,
      vd_confidence = confidence det,
      severity = (if str_contains (class_name det) ''helmet'' then 3 else 2)\<rparr>"

fun routes_collect_violations :: "detection list \<Rightarrow> violation_detail list" where
  "routes_collect_violations [] = []"
| "routes_collect_violations (det # dets) =
     (if startswith (class_name det) ''no-''
      then routes_violation_of det # routes_collect_violations dets
      else routes_collect_violations dets)"

text \<open>
  The status message. The branch for a present person with a missing essential item
  is \<^verbatim>\<open>pass\<close> in the source and changes nothing.
\<close>

definition routes_status_message :: "nat \<Rightarrow> nat \<Rightarrow> string" where
  "routes_status_message persons violations =
     (if violations > 0 then str_nat violations @ '' Violation(s) Detected''
      else if persons > 0 \<and> violations = 0 then ''Compliant (Persons detected, no violations)''
      else if persons = 0 then ''No persons detected''
      else ''Compliant'')"

definition routes_analyze_frame_for_ppe_status :: "detection list \<Rightarrow> frame_analysis" where
  "routes_analyze_frame_for_ppe_status detections =
     (let details = routes_collect_violations detections;
          persons = count_persons detections;
          violations = length details
      in \<lparr>person_count = persons,
          ppe_worn_count = count_ppe_worn detections,
          violations_count = violations,
          status_message = routes_status_message persons violations,
          violation_details = details\<rparr>)"

text \<open>
  \<^verbatim>\<open>app/detection/detector.py\<close> keeps an earlier copy of the analysis: the three tests
  are independent \<^verbatim>\<open>if\<close>s, every entry has severity 1, and the compliant message
  differs.
\<close>

fun detector_count_ppe_worn :: "detection list \<Rightarrow> nat" where
  "detector_count_ppe_worn [] = 0"
| "detector_count_ppe_worn (det # dets) =
     (if class_name det \<in> set [''helmet'', ''vest'', ''gloves''] then 1 else 0)
     + detector_count_ppe_worn dets"

definition detector_violation_of :: "detection \<Rightarrow> violation_detail" where
  "detector_violation_of det =
     \<lparr>violation_type = class_name det,
      location_box = box det,
      vd_confidence = confidence det,
      severity = 1\<rparr>"

fun detector_collect_violations :: "detection list \<Rightarrow> violation_detail list" where
  "detector_collect_violations [] = []"
| "detector_collect_violations (det # dets) =
     (if startswith (class_name det) ''no-''
      then detector_violation_of det # detector_collect_violations dets
      else detector_collect_violations dets)"

definition detector_status_message :: "nat \<Rightarrow> nat \<Rightarrow> string" where
  "detector_status_message persons violations =
     (if violations > 0 then str_nat violations @ '' Violation(s) Detected''
      else if persons > 0 \<and> violations = 0 then ''Compliant (All persons wearing detected PPE)''
      else if persons = 0 then ''No persons detected''
      else ''Compliant'')"

definition detector_analyze_frame_for_ppe_status :: "detection list \<Rightarrow> frame_analysis" where
  "detector_analyze_frame_for_ppe_status detections =
     (let details = detector_collect_violations detections;
          persons = count_persons detections;
          violations = length details
      in \<lparr>person_count = persons,
          ppe_worn_count = detector_count_ppe_worn detections,
          violations_count = violations,
          status_message = detector_status_message persons violations,
          violation_details = details\<rparr>)"

subsection \<open>Configuration\<close>

text \<open>The constants of \<^verbatim>\<open>Config\<close> that the pipeline reads, with the values of \<^verbatim>\<open>app/config.py\<close>.\<close>

record config =
  ALERT_COOLDOWN_SECONDS :: int
  LOG_INTERVAL_SECONDS :: int
  SAVE_VIOLATION_SNAPSHOT :: bool
  SNAPSHOT_CONSECUTIVE_VIOLATIONS :: int

definition app_config :: config where
  "app_config =
     \<lparr>ALERT_COOLDOWN_SECONDS = 60,
      LOG_INTERVAL_SECONDS = 5,
      SAVE_VIOLATION_SNAPSHOT = True,
      SNAPSHOT_CONSECUTIVE_VIOLATIONS = 5\<rparr>"

subsection \<open>The alert manager\<close>

text \<open>
  \<^verbatim>\<open>AlertManager\<close>: the cooldown and a \<^verbatim>\<open>defaultdict(float)\<close> from violation type to
  the time of the last alert. Reading a missing key of a \<^verbatim>\<open>defaultdict\<close> stores the
  default \<open>0.0\<close> under it and returns it.
\<close>

record alert_manager =
  alert_cooldown_seconds :: int
  last_alert_time :: "string \<rightharpoonup> real"

definition new_alert_manager :: "int \<Rightarrow> alert_manager" where
  "new_alert_manager cooldown =
     \<lparr>alert_cooldown_seconds = cooldown, last_alert_time = Map.empty\<rparr>"

text \<open>
  The module creates its one manager with the configured cooldown:
  \<^verbatim>\<open>alert_manager = AlertManager(alert_cooldown_seconds=app_config.ALERT_COOLDOWN_SECONDS)\<close>.
\<close>

definition initial_alert_manager :: "config \<Rightarrow> alert_manager" where
  "initial_alert_manager cfg = new_alert_manager (ALERT_COOLDOWN_SECONDS cfg)"

definition defaultdict_get :: "(string \<rightharpoonup> real) \<Rightarrow> string \<Rightarrow> real \<times> (string \<rightharpoonup> real)" where
  "defaultdict_get d k = (case d k of None \<Rightarrow> (0, d(k \<mapsto> 0)) | Some v \<Rightarrow> (v, d))"

text \<open>
  \<^verbatim>\<open>should_send_alert\<close>; the argument \<open>now\<close> is what \<^verbatim>\<open>time.time()\<close> returns inside it.
\<close>

definition should_send_alert :: "alert_manager \<Rightarrow> real \<Rightarrow> string \<Rightarrow> bool \<times> alert_manager" where
  "should_send_alert mgr now vtype =
     (let (last, d) = defaultdict_get (last_alert_time mgr) vtype;
          time_since_last_alert = now - last
      in (time_since_last_alert \<ge> real_of_int (alert_cooldown_seconds mgr),
          mgr\<lparr>last_alert_time := d\<rparr>))"

text \<open>
  \<^verbatim>\<open>record_alert_sent\<close>; \<open>now\<close> is its own reading of \<^verbatim>\<open>time.time()\<close>, taken after the
  send.
\<close>

definition record_alert_sent :: "alert_manager \<Rightarrow> real \<Rightarrow> string \<Rightarrow> alert_manager" where
  "record_alert_sent mgr now vtype =
     mgr\<lparr>last_alert_time := (last_alert_time mgr)(vtype \<mapsto> now)\<rparr>"

text \<open>
  A \<^verbatim>\<open>datetime\<close> and \<^verbatim>\<open>strftime('%Y-%m-%d %H:%M:%S UTC')\<close>, for years of four digits.
\<close>

record datetime =
  year :: nat
  month :: nat
  day :: nat
  hour :: nat
  minute :: nat
  second :: nat

definition two_digits :: "nat \<Rightarrow> string" where
  "two_digits n = [digit_char (n div 10 mod 10), digit_char (n mod 10)]"

definition strftime_utc :: "datetime \<Rightarrow> string" where
  "strftime_utc t =
     str_nat (year t) @ ''-'' @ two_digits (month t) @ ''-'' @ two_digits (day t) @ '' ''
     @ two_digits (hour t) @ '':'' @ two_digits (minute t) @ '':'' @ two_digits (second t)
     @ '' UTC''"

text \<open>
  \<^verbatim>\<open>violation_summary\<close> is a \<^verbatim>\<open>defaultdict(int)\<close>; its items come out in the order in
  which the keys were first stored.
\<close>

fun summary_increment :: "(string \<times> nat) list \<Rightarrow> string \<Rightarrow> (string \<times> nat) list" where
  "summary_increment [] k = [(k, 1)]"
| "summary_increment ((k', n) # rest) k =
     (if k' = k then (k', n + 1) # rest else (k', n) # summary_increment rest k)"

definition violation_summary :: "violation_detail list \<Rightarrow> (string \<times> nat) list" where
  "violation_summary details = foldl summary_increment [] (map violation_type details)"

definition bullet_line :: "string \<times> nat \<Rightarrow> string" where
  "bullet_line item =
     ''- '' @ str_nat (snd item) @ ''x '' @ str_replace (fst item) ''no-'' ''missing ''"

definition header_line :: "datetime \<Rightarrow> string" where
  "header_line frame_time = ''InjuryShield ALERT at '' @ strftime_utc frame_time @ '':''"

definition format_alert_message :: "violation_detail list \<Rightarrow> datetime \<Rightarrow> string" where
  "format_alert_message details frame_time =
     (if details = [] then ''No violations detected.''
      else str_join [CHR 0x0A]
             ([header_line frame_time]
              @ map bullet_line (violation_summary details)
              @ [''Immediate action required.'']))"

subsection \<open>The frame loop of \<^verbatim>\<open>generate_frames\<close>\<close>

text \<open>
  A frame is an opaque identifier. The trace records every call the loop makes to a
  collaborator, with the arguments it passes and the value the call returns, the
  frames it yields, and the log records the properties speak about.
\<close>

type_synonym frame = nat

datatype log_record =
    NoFrameReceived
  | ViolationSnapshotCaptured string
  | FailedToSaveComplianceLog
  | TriggeringSmsAlert string
  | FailedToEncodeFrame
  | ErrorDuringFrameGeneration

datatype effect =
    SaveFrameSnapshot frame "string option"
  | SaveComplianceLog nat nat nat string "string option" "int option"
  | SaveViolationEvent int string "real list" real int
  | SendSms string bool
  | YieldFrame frame "detection list"
  | Log log_record

text \<open>
  What the collaborators return while one violation detail is handled by the alerting
  loop: the clock inside \<^verbatim>\<open>should_send_alert\<close>, \<^verbatim>\<open>datetime.utcnow()\<close>, the result of
  \<^verbatim>\<open>send_sms\<close>, and the clock inside \<^verbatim>\<open>record_alert_sent\<close>.
\<close>

record alert_io =
  check_time :: real
  frame_time :: datetime
  send_result :: bool
  record_time :: real

text \<open>
  What the collaborators return during one iteration. \<open>detect = None\<close> stands for a
  call of \<^verbatim>\<open>global_detector.detect\<close> that raises. \<open>alert_ios i\<close> serves the detail
  at position \<open>i\<close> of \<^verbatim>\<open>violation_details\<close>.
\<close>

record frame_io =
  read_frame :: "frame option"
  detect :: "detection list option"
  snapshot_saved :: "string option"
  current_time :: real
  compliance_log_id :: "int option"
  alert_ios :: "nat \<Rightarrow> alert_io"
  imencode_ok :: bool

text \<open>
  The variables that live across iterations: the module global
  \<^verbatim>\<open>_consecutive_violation_frames\<close>, the locals \<^verbatim>\<open>last_log_time\<close> and
  \<^verbatim>\<open>snapshot_path\<close> (\<open>None\<close> while unbound or bound to \<^verbatim>\<open>None\<close>), and the global
  alert manager.
\<close>

record stream_state =
  consecutive_violation_frames :: int
  last_log_time :: real
  snapshot_path :: "string option"
  manager :: alert_manager

text \<open>Python truthiness of an optional string.\<close>

definition truthy :: "string option \<Rightarrow> bool" where
  "truthy p = (case p of None \<Rightarrow> False | Some s \<Rightarrow> s \<noteq> [])"

text \<open>
  The snapshot logic. It returns the counter, the local \<^verbatim>\<open>snapshot_path\<close> and the
  trace; \<open>saved\<close> is what \<^verbatim>\<open>save_frame_snapshot\<close> returns if it is called.
\<close>

definition snapshot_logic ::
  "config \<Rightarrow> int \<Rightarrow> string option \<Rightarrow> nat \<Rightarrow> frame \<Rightarrow> string option
     \<Rightarrow> int \<times> string option \<times> effect list" where
  "snapshot_logic cfg counter path violations frame saved =
     (if SAVE_VIOLATION_SNAPSHOT cfg \<and> violations > 0 then
        (let counter1 = counter + 1 in
         if counter1 \<ge> SNAPSHOT_CONSECUTIVE_VIOLATIONS cfg then
           (0, saved,
            SaveFrameSnapshot frame saved
            # (case saved of
                 Some p \<Rightarrow> if p \<noteq> [] then [Log (ViolationSnapshotCaptured p)] else []
               | None \<Rightarrow> []))
         else (counter1, path, []))
      else (0, path, []))"

text \<open>The loop over \<^verbatim>\<open>violation_details\<close> inside the logging block.\<close>

definition save_violation_events :: "int \<Rightarrow> violation_detail list \<Rightarrow> effect list" where
  "save_violation_events log_id details =
     map (\<lambda>detail. SaveViolationEvent log_id (violation_type detail) (location_box detail)
                      (vd_confidence detail) (severity detail)) details"

text \<open>
  The logging block. It returns \<^verbatim>\<open>last_log_time\<close> and the trace; \<open>log_id\<close> is what
  \<^verbatim>\<open>save_compliance_log\<close> returns if it is called.
\<close>

definition logging_logic ::
  "config \<Rightarrow> real \<Rightarrow> real \<Rightarrow> frame_analysis \<Rightarrow> string option \<Rightarrow> int option
     \<Rightarrow> real \<times> effect list" where
  "logging_logic cfg last_log now a path log_id =
     (if now - last_log \<ge> real_of_int (LOG_INTERVAL_SECONDS cfg) then
        (now,
         SaveComplianceLog (person_count a) (ppe_worn_count a) (violations_count a)
             (status_message a) (if truthy path then path else None) log_id
         # (case log_id of
              Some i \<Rightarrow> if violations_count a > 0
                        then save_violation_events i (violation_details a) else []
            | None \<Rightarrow> [Log FailedToSaveComplianceLog]))
      else (last_log, []))"

text \<open>The body of the alerting loop for one detail.\<close>

definition alert_detail ::
  "alert_manager \<Rightarrow> alert_io \<Rightarrow> violation_detail \<Rightarrow> alert_manager \<times> effect list" where
  "alert_detail mgr io detail =
     (let (send, mgr1) = should_send_alert mgr (check_time io) (violation_type detail) in
      if send then
        (record_alert_sent mgr1 (record_time io) (violation_type detail),
         [Log (TriggeringSmsAlert (violation_type detail)),
          SendSms (format_alert_message [detail] (frame_time io)) (send_result io)])
      else (mgr1, []))"

fun alerting_loop ::
  "alert_manager \<Rightarrow> (nat \<Rightarrow> alert_io) \<Rightarrow> nat \<Rightarrow> violation_detail list
     \<Rightarrow> alert_manager \<times> effect list" where
  "alerting_loop mgr ios i [] = (mgr, [])"
| "alerting_loop mgr ios i (detail # details) =
     (let (mgr1, effs1) = alert_detail mgr (ios i) detail;
          (mgr2, effs2) = alerting_loop mgr1 ios (i + 1) details
      in (mgr2, effs1 @ effs2))"

definition alerting_logic ::
  "alert_manager \<Rightarrow> (nat \<Rightarrow> alert_io) \<Rightarrow> frame_analysis \<Rightarrow> alert_manager \<times> effect list" where
  "alerting_logic mgr ios a =
     (if violations_count a > 0 then alerting_loop mgr ios 0 (violation_details a)
      else (mgr, []))"

text \<open>
  One iteration after a frame was read and the detector returned. A frame that fails
  to encode is logged and not yielded (\<^verbatim>\<open>continue\<close>). The pacing sleep at the end of
  the iteration touches none of the state above and is left out.
\<close>

definition process_frame ::
  "config \<Rightarrow> stream_state \<Rightarrow> frame \<Rightarrow> detection list \<Rightarrow> frame_io
     \<Rightarrow> stream_state \<times> effect list" where
  "process_frame cfg st frame detections io =
     (let a = routes_analyze_frame_for_ppe_status detections;
          (counter, path, snap_effs) =
             snapshot_logic cfg (consecutive_violation_frames st) (snapshot_path st)
               (violations_count a) frame (snapshot_saved io);
          (last_log, log_effs) =
             logging_logic cfg (last_log_time st) (current_time io) a path
               (compliance_log_id io);
          (mgr, alert_effs) = alerting_logic (manager st) (alert_ios io) a
      in (\<lparr>consecutive_violation_frames = counter,
           last_log_time = last_log,
           snapshot_path = path,
           manager = mgr\<rparr>,
          snap_effs @ log_effs @ alert_effs
          @ (if imencode_ok io then [YieldFrame frame detections]
             else [Log FailedToEncodeFrame])))"

text \<open>
  How the loop was left: the source returned no frame (\<^verbatim>\<open>break\<close>), an exception
  reached the handler around the \<^verbatim>\<open>while\<close>, or the given iterations were all
  carried out and the loop is still running.
\<close>

datatype loop_exit = EndOfStream | ExceptionCaught | StillRunning

fun frames_loop ::
  "config \<Rightarrow> stream_state \<Rightarrow> frame_io list \<Rightarrow> effect list \<times> stream_state \<times> loop_exit" where
  "frames_loop cfg st [] = ([], st, StillRunning)"
| "frames_loop cfg st (io # ios) =
     (case read_frame io of
        None \<Rightarrow> ([Log NoFrameReceived], st, EndOfStream)
      | Some frame \<Rightarrow>
          (case detect io of
             None \<Rightarrow> ([Log ErrorDuringFrameGeneration], st, ExceptionCaught)
           | Some detections \<Rightarrow>
               (let (st1, effs1) = process_frame cfg st frame detections io;
                    (effs2, st2, ex) = frames_loop cfg st1 ios
                in (effs1 @ effs2, st2, ex))))"

text \<open>
  \<^verbatim>\<open>generate_frames\<close> from the point where the stream is open and the detector is
  present: \<open>start\<close> is the clock reading that initialises \<^verbatim>\<open>last_log_time\<close>,
  \<open>counter\<close> and \<open>mgr\<close> are the globals as the call finds them, and
  \<^verbatim>\<open>snapshot_path\<close> is unbound.
\<close>

definition generate_frames ::
  "config \<Rightarrow> real \<Rightarrow> int \<Rightarrow> alert_manager \<Rightarrow> frame_io list
     \<Rightarrow> effect list \<times> stream_state \<times> loop_exit" where
  "generate_frames cfg start counter mgr ios =
     frames_loop cfg
       \<lparr>consecutive_violation_frames = counter, last_log_time = start,
        snapshot_path = None, manager = mgr\<rparr> ios"

subsection \<open>Reading a trace\<close>

text \<open>The kinds of entries the properties select from a trace.\<close>

fun is_snapshot_call :: "effect \<Rightarrow> bool" where
  "is_snapshot_call (SaveFrameSnapshot f r) = True"
| "is_snapshot_call e = False"

fun is_compliance_write :: "effect \<Rightarrow> bool" where
  "is_compliance_write (SaveComplianceLog p w v s path r) = True"
| "is_compliance_write e = False"

fun is_event_write :: "effect \<Rightarrow> bool" where
  "is_event_write (SaveViolationEvent i t b c s) = True"
| "is_event_write e = False"

fun is_persistence :: "effect \<Rightarrow> bool" where
  "is_persistence (SaveComplianceLog p w v s path r) = True"
| "is_persistence (SaveViolationEvent i t b c s) = True"
| "is_persistence e = False"

fun is_sms :: "effect \<Rightarrow> bool" where
  "is_sms (SendSms m r) = True"
| "is_sms e = False"

fun is_yield :: "effect \<Rightarrow> bool" where
  "is_yield (YieldFrame f d) = True"
| "is_yield e = False"


text \<open>
  A trace is well referenced when every violation event written carries the id that the
  most recent compliance-log write returned; \<open>cur\<close> is what that write returned
  (\<open>None\<close> before the first write and after a failed one).
\<close>

fun well_referenced :: "int option \<Rightarrow> effect list \<Rightarrow> bool" where
  "well_referenced cur [] = True"
| "well_referenced cur (SaveComplianceLog p w v s path r # es) = well_referenced r es"
| "well_referenced cur (SaveViolationEvent i t b c s # es) =
     (cur = Some i \<and> well_referenced cur es)"
| "well_referenced cur (e # es) = well_referenced cur es"

subsection \<open>Sample inputs\<close>

text \<open>Concrete inputs on which the properties below are evaluated.\<close>

definition sample_detection :: "string \<Rightarrow> detection" where
  "sample_detection name =
     \<lparr>box = [10, 20, 110, 220], confidence = 9 / 10, class_id = 0, class_name = name\<rparr>"

definition sample_datetime :: datetime where
  "sample_datetime = \<lparr>year = 2024, month = 3, day = 9, hour = 7, minute = 5, second = 0\<rparr>"

definition sample_alert_io :: "real \<Rightarrow> bool \<Rightarrow> alert_io" where
  "sample_alert_io t ok =
     \<lparr>check_time = t, frame_time = sample_datetime, send_result = ok, record_time = t\<rparr>"

definition sample_frame_io ::
  "frame \<Rightarrow> detection list option \<Rightarrow> real \<Rightarrow> int option \<Rightarrow> frame_io" where
  "sample_frame_io f dets t log_id =
     \<lparr>read_frame = Some f, detect = dets, snapshot_saved = Some ''snapshots/s.jpg'',
      current_time = t, compliance_log_id = log_id,
      alert_ios = (\<lambda>k. sample_alert_io t True), imencode_ok = True\<rparr>"

definition sample_state :: "real \<Rightarrow> stream_state" where
  "sample_state t =
     \<lparr>consecutive_violation_frames = 0, last_log_time = t, snapshot_path = None,
      manager = new_alert_manager 60\<rparr>"

subsection \<open>Frames with and without violations\<close>

text \<open>
  An iteration is violating when a frame is read, the detector returns, and the analysis
  counts at least one violation.
\<close>

definition violating :: "frame_io \<Rightarrow> bool" where
  "violating io =
     (case read_frame io of
        None \<Rightarrow> False
      | Some f \<Rightarrow>
          (case detect io of
             None \<Rightarrow> False
           | Some dets \<Rightarrow> 0 < violations_count (routes_analyze_frame_for_ppe_status dets)))"

subsection \<open>The snapshot path handed to the compliance log\<close>

text \<open>
  The argument \<^verbatim>\<open>frame_snapshot_path\<close> of an iteration's call of
  \<^verbatim>\<open>save_compliance_log\<close>: the local \<^verbatim>\<open>snapshot_path\<close> as the snapshot logic of that
  iteration leaves it, if it is bound and truthy.
\<close>

definition logged_snapshot_path ::
  "config \<Rightarrow> stream_state \<Rightarrow> frame \<Rightarrow> detection list \<Rightarrow> frame_io \<Rightarrow> string option" where
  "logged_snapshot_path cfg st f dets io =
     (let path = fst (snd (snapshot_logic cfg (consecutive_violation_frames st)
                    (snapshot_path st)
                    (violations_count (routes_analyze_frame_for_ppe_status dets)) f
                    (snapshot_saved io)))
      in if truthy path then path else None)"


subsection \<open>The send attempts of a trace\<close>




section \<open>Properties of the frame analysis\<close>

lemma str_nat_digit: "n < 10 \<Longrightarrow> str_nat n = [digit_char n]"
  by (subst str_nat.simps) simp

lemma violation_status_not_compliant:
  "str_nat n @ '' Violation(s) Detected'' \<noteq> ''Compliant (Persons detected, no violations)''"
proof
  assume "str_nat n @ '' Violation(s) Detected'' = ''Compliant (Persons detected, no violations)''"
  then have "last (str_nat n @ '' Violation(s) Detected'')
      = last ''Compliant (Persons detected, no violations)''"
    by (rule arg_cong)
  then show False by simp
qed

lemma violation_status_not_no_persons:
  "str_nat n @ '' Violation(s) Detected'' \<noteq> ''No persons detected''"
proof
  assume "str_nat n @ '' Violation(s) Detected'' = ''No persons detected''"
  then have "length (str_nat n @ '' Violation(s) Detected'') = length ''No persons detected''"
    by (rule arg_cong)
  then show False by simp
qed

lemma routes_collect_violations_filter:
  "routes_collect_violations dets
     = map routes_violation_of (filter (\<lambda>d. startswith (class_name d) ''no-'') dets)"
  by (induction dets) simp_all

lemma count_persons_filter:
  "count_persons dets = length (filter (\<lambda>d. class_name d = ''person'') dets)"
  by (induction dets) simp_all

lemma detector_collect_violations_filter:
  "detector_collect_violations dets
     = map detector_violation_of (filter (\<lambda>d. startswith (class_name d) ''no-'') dets)"
  by (induction dets) simp_all

text \<open>
  The earlier copy in \<^verbatim>\<open>detector.py\<close> gives every violation severity 1, a missing
  helmet included.
\<close>

lemma detector_severity_is_one:
  "e \<in> set (violation_details (detector_analyze_frame_for_ppe_status dets)) \<Longrightarrow> severity e = 1"
  by (auto simp: detector_analyze_frame_for_ppe_status_def Let_def
        detector_collect_violations_filter detector_violation_of_def)

text \<open>
  C8. For every detection list the analysis returns the violations status exactly when
  the violation count is positive, the no-persons status exactly when there is no
  violation and no person, and the compliant status exactly when there is no violation
  and at least one person. The counts are the numbers of detections of class
  \<^verbatim>\<open>person\<close> and of class names starting with \<^verbatim>\<open>no-\<close>. The function is total on
  detection lists (no statement of its body can raise on a detection with its four
  keys), and on the empty list it returns zero counts, no violation and the no-persons
  status.
\<close>

theorem analyze_status_classification:
  "(status_message (routes_analyze_frame_for_ppe_status dets)
       = str_nat (violations_count (routes_analyze_frame_for_ppe_status dets))
         @ '' Violation(s) Detected'')
     = (0 < violations_count (routes_analyze_frame_for_ppe_status dets))
   \<and> (status_message (routes_analyze_frame_for_ppe_status dets) = ''No persons detected'')
     = (violations_count (routes_analyze_frame_for_ppe_status dets) = 0
        \<and> person_count (routes_analyze_frame_for_ppe_status dets) = 0)
   \<and> (status_message (routes_analyze_frame_for_ppe_status dets)
       = ''Compliant (Persons detected, no violations)'')
     = (violations_count (routes_analyze_frame_for_ppe_status dets) = 0
        \<and> 0 < person_count (routes_analyze_frame_for_ppe_status dets))
   \<and> person_count (routes_analyze_frame_for_ppe_status dets)
     = length (filter (\<lambda>d. class_name d = ''person'') dets)
   \<and> violations_count (routes_analyze_frame_for_ppe_status dets)
     = length (filter (\<lambda>d. startswith (class_name d) ''no-'') dets)
   \<and> violations_count (routes_analyze_frame_for_ppe_status dets)
     = length (violation_details (routes_analyze_frame_for_ppe_status dets))
   \<and> routes_analyze_frame_for_ppe_status []
     = \<lparr>person_count = 0, ppe_worn_count = 0, violations_count = 0,
        status_message = ''No persons detected'', violation_details = []\<rparr>"
  unfolding routes_analyze_frame_for_ppe_status_def routes_status_message_def Let_def
  using violation_status_not_compliant violation_status_not_no_persons
  by (auto simp: routes_collect_violations_filter count_persons_filter)

theorem analyze_status_classification_witness:
  "status_message (routes_analyze_frame_for_ppe_status
      [\<lparr>box = [0, 0, 10, 20], confidence = 9 / 10, class_id = 0, class_name = ''person''\<rparr>,
       \<lparr>box = [2, 1, 6, 5], confidence = 4 / 5, class_id = 3, class_name = ''no-helmet''\<rparr>])
     = ''1 Violation(s) Detected''
   \<and> person_count (routes_analyze_frame_for_ppe_status
      [\<lparr>box = [0, 0, 10, 20], confidence = 9 / 10, class_id = 0, class_name = ''person''\<rparr>,
       \<lparr>box = [2, 1, 6, 5], confidence = 4 / 5, class_id = 3, class_name = ''no-helmet''\<rparr>]) = 1"
proof -
  let ?d = "[\<lparr>box = [0, 0, 10, 20], confidence = 9 / 10, class_id = 0, class_name = ''person''\<rparr>,
             \<lparr>box = [2, 1, 6, 5], confidence = 4 / 5, class_id = 3, class_name = ''no-helmet''\<rparr>]"
  have counts: "violations_count (routes_analyze_frame_for_ppe_status ?d) = 1"
    "person_count (routes_analyze_frame_for_ppe_status ?d) = 1"
    by (simp_all add: routes_analyze_frame_for_ppe_status_def)
  have "(status_message (routes_analyze_frame_for_ppe_status ?d)
           = str_nat (violations_count (routes_analyze_frame_for_ppe_status ?d))
             @ '' Violation(s) Detected'')
        = (0 < violations_count (routes_analyze_frame_for_ppe_status ?d))"
    using analyze_status_classification [of ?d] by (rule conjunct1)
  then show ?thesis
    unfolding counts by (simp add: str_nat_digit digit_char_def)
qed

text \<open>
  C2, as the code has it. Every detection whose class name starts with \<^verbatim>\<open>no-\<close> yields
  exactly one violation detail, in the order of the detections, carrying its class name,
  box and confidence. The severity is 3 when the class name contains \<^verbatim>\<open>helmet\<close> and
  2 otherwise: a helmet violation is strictly more severe than any other, and the
  severity of the other types is 2.
\<close>

theorem routes_violation_severity:
  "violation_details (routes_analyze_frame_for_ppe_status dets)
     = map routes_violation_of (filter (\<lambda>d. startswith (class_name d) ''no-'') dets)
   \<and> map violation_type (violation_details (routes_analyze_frame_for_ppe_status dets))
     = map class_name (filter (\<lambda>d. startswith (class_name d) ''no-'') dets)
   \<and> map severity (violation_details (routes_analyze_frame_for_ppe_status dets))
     = map (\<lambda>d. if str_contains (class_name d) ''helmet'' then 3 else 2)
         (filter (\<lambda>d. startswith (class_name d) ''no-'') dets)
   \<and> (\<forall>e1 \<in> set (violation_details (routes_analyze_frame_for_ppe_status dets)).
       \<forall>e2 \<in> set (violation_details (routes_analyze_frame_for_ppe_status dets)).
         str_contains (violation_type e1) ''helmet''
         \<and> \<not> str_contains (violation_type e2) ''helmet''
         \<longrightarrow> severity e2 < severity e1 \<and> severity e2 = 2)"
  by (auto simp: routes_analyze_frame_for_ppe_status_def Let_def
        routes_collect_violations_filter routes_violation_of_def)

theorem routes_violation_severity_witness:
  "map severity (violation_details (routes_analyze_frame_for_ppe_status
      [\<lparr>box = [2, 1, 6, 5], confidence = 4 / 5, class_id = 3, class_name = ''no-helmet''\<rparr>,
       \<lparr>box = [0, 0, 10, 20], confidence = 9 / 10, class_id = 0, class_name = ''person''\<rparr>,
       \<lparr>box = [3, 9, 5, 11], confidence = 7 / 10, class_id = 5, class_name = ''no-gloves''\<rparr>]))
     = [3, 2]"
proof -
  let ?d = "[\<lparr>box = [2, 1, 6, 5], confidence = 4 / 5, class_id = 3, class_name = ''no-helmet''\<rparr>,
             \<lparr>box = [0, 0, 10, 20], confidence = 9 / 10, class_id = 0, class_name = ''person''\<rparr>,
             \<lparr>box = [3, 9, 5, 11], confidence = 7 / 10, class_id = 5, class_name = ''no-gloves''\<rparr>]"
  have "map severity (violation_details (routes_analyze_frame_for_ppe_status ?d))
          = map (\<lambda>d. if str_contains (class_name d) ''helmet'' then 3 else 2)
              (filter (\<lambda>d. startswith (class_name d) ''no-'') ?d)"
    using routes_violation_severity [of ?d] by (elim conjE)
  then show ?thesis by simp
qed

text \<open>
  C2 as stated fails: no violation type receives severity 1. Violations of the types
  \<^verbatim>\<open>no-gloves\<close> and \<^verbatim>\<open>no-mask\<close> both receive severity 2.
\<close>

theorem default_severity_counterexample:
  "map severity (violation_details (routes_analyze_frame_for_ppe_status
      [\<lparr>box = [3, 9, 5, 11], confidence = 7 / 10, class_id = 5, class_name = ''no-gloves''\<rparr>,
       \<lparr>box = [1, 1, 2, 2], confidence = 3 / 5, class_id = 6, class_name = ''no-mask''\<rparr>]))
     = [2, 2]"
  by (simp add: routes_analyze_frame_for_ppe_status_def routes_violation_of_def)

section \<open>Properties of the frame loop\<close>

subsection \<open>Running the loop on a longer input\<close>

lemma frames_loop_running_append:
  "frames_loop cfg st pre = (effs, st1, StillRunning) \<Longrightarrow>
     frames_loop cfg st (pre @ ios)
       = (effs @ fst (frames_loop cfg st1 ios),
          fst (snd (frames_loop cfg st1 ios)),
          snd (snd (frames_loop cfg st1 ios)))"
proof (induction pre arbitrary: st effs)
  case Nil
  then show ?case by simp
next
  case (Cons io pre)
  from Cons.prems obtain f dets where io: "read_frame io = Some f" "detect io = Some dets"
    by (auto split: option.splits)
  obtain st' effs' where step: "process_frame cfg st f dets io = (st', effs')"
    by (cases "process_frame cfg st f dets io")
  obtain effs2 st2 ex where rest: "frames_loop cfg st' pre = (effs2, st2, ex)"
    by (cases "frames_loop cfg st' pre")
  from Cons.prems io step rest have ex: "ex = StillRunning" "st2 = st1" "effs = effs' @ effs2"
    by simp_all
  from Cons.IH [of st' effs2] rest ex
  have "frames_loop cfg st' (pre @ ios)
          = (effs2 @ fst (frames_loop cfg st1 ios),
             fst (snd (frames_loop cfg st1 ios)),
             snd (snd (frames_loop cfg st1 ios)))"
    by simp
  with io step ex show ?case by simp
qed

subsection \<open>The parts of one iteration\<close>

lemma process_frame_effects:
  "snd (process_frame cfg st f dets io)
     = snd (snd (snapshot_logic cfg (consecutive_violation_frames st) (snapshot_path st)
         (violations_count (routes_analyze_frame_for_ppe_status dets)) f (snapshot_saved io)))
       @ snd (logging_logic cfg (last_log_time st) (current_time io)
           (routes_analyze_frame_for_ppe_status dets)
           (fst (snd (snapshot_logic cfg (consecutive_violation_frames st) (snapshot_path st)
              (violations_count (routes_analyze_frame_for_ppe_status dets)) f
              (snapshot_saved io))))
           (compliance_log_id io))
       @ snd (alerting_logic (manager st) (alert_ios io)
           (routes_analyze_frame_for_ppe_status dets))
       @ (if imencode_ok io then [YieldFrame f dets] else [Log FailedToEncodeFrame])"
  by (simp add: process_frame_def Let_def split_beta)

lemma process_frame_last_log_time:
  "last_log_time (fst (process_frame cfg st f dets io))
     = fst (logging_logic cfg (last_log_time st) (current_time io)
           (routes_analyze_frame_for_ppe_status dets)
           (fst (snd (snapshot_logic cfg (consecutive_violation_frames st) (snapshot_path st)
              (violations_count (routes_analyze_frame_for_ppe_status dets)) f
              (snapshot_saved io))))
           (compliance_log_id io))"
  by (simp add: process_frame_def Let_def split_beta)

lemma process_frame_snapshot_path:
  "snapshot_path (fst (process_frame cfg st f dets io))
     = fst (snd (snapshot_logic cfg (consecutive_violation_frames st) (snapshot_path st)
         (violations_count (routes_analyze_frame_for_ppe_status dets)) f (snapshot_saved io)))"
  by (simp add: process_frame_def Let_def split_beta)

lemma process_frame_consecutive:
  "consecutive_violation_frames (fst (process_frame cfg st f dets io))
     = fst (snapshot_logic cfg (consecutive_violation_frames st) (snapshot_path st)
         (violations_count (routes_analyze_frame_for_ppe_status dets)) f (snapshot_saved io))"
  by (simp add: process_frame_def Let_def split_beta)


lemma snapshot_logic_no_write:
  "e \<in> set (snd (snd (snapshot_logic cfg c p v f r))) \<Longrightarrow>
     \<not> is_persistence e \<and> \<not> is_compliance_write e \<and> \<not> is_event_write e \<and> \<not> is_sms e"
  by (auto simp: snapshot_logic_def Let_def split: if_splits option.splits)

lemma alert_detail_no_write:
  "e \<in> set (snd (alert_detail mgr io d)) \<Longrightarrow>
     \<not> is_persistence e \<and> \<not> is_compliance_write e \<and> \<not> is_event_write e"
  by (auto simp: alert_detail_def split_beta split: if_splits)

lemma alerting_loop_no_write:
  "e \<in> set (snd (alerting_loop mgr ios i ds)) \<Longrightarrow>
     \<not> is_persistence e \<and> \<not> is_compliance_write e \<and> \<not> is_event_write e"
proof (induction ds arbitrary: mgr i)
  case Nil
  then show ?case by simp
next
  case (Cons d ds)
  from Cons.prems
  have "e \<in> set (snd (alert_detail mgr (ios i) d))
        \<or> e \<in> set (snd (alerting_loop (fst (alert_detail mgr (ios i) d)) ios (i + 1) ds))"
    by (simp add: split_beta)
  then show ?case
    using alert_detail_no_write Cons.IH by blast
qed

lemma alerting_logic_no_write:
  "e \<in> set (snd (alerting_logic mgr ios a)) \<Longrightarrow>
     \<not> is_persistence e \<and> \<not> is_compliance_write e \<and> \<not> is_event_write e"
  using alerting_loop_no_write [of e mgr ios 0 "violation_details a"]
  by (simp add: alerting_logic_def split: if_splits)

text \<open>
  C1, as the code has it. The handler stands around the whole \<^verbatim>\<open>while\<close> loop. When the
  detector raises on a frame that was read, the iterations before it have run as usual,
  the exception is caught and logged, the loop is left, and the generator ends without
  raising: whatever frames the source still holds are never read, analysed or yielded,
  and the failing frame changes no state.
\<close>

theorem detector_exception_ends_stream:
  "read_frame io = Some f \<Longrightarrow> detect io = None \<Longrightarrow>
   frames_loop cfg st pre = (effs, st1, StillRunning) \<Longrightarrow>
     frames_loop cfg st (pre @ io # post)
       = (effs @ [Log ErrorDuringFrameGeneration], st1, ExceptionCaught)"
  by (simp add: frames_loop_running_append)

theorem detector_exception_ends_stream_witness:
  "filter is_yield (fst (frames_loop app_config (sample_state 1000)
      ([sample_frame_io 1 (Some []) 1001 (Some 1)]
       @ sample_frame_io 2 None 1002 (Some 2)
       # [sample_frame_io 3 (Some []) 1003 (Some 3)])))
     = [YieldFrame 1 []]
   \<and> snd (snd (frames_loop app_config (sample_state 1000)
      ([sample_frame_io 1 (Some []) 1001 (Some 1)]
       @ sample_frame_io 2 None 1002 (Some 2)
       # [sample_frame_io 3 (Some []) 1003 (Some 3)])))
     = ExceptionCaught"
proof -
  have pre: "frames_loop app_config (sample_state 1000)
               [sample_frame_io 1 (Some []) 1001 (Some 1)]
      = ([YieldFrame 1 []], sample_state 1000, StillRunning)"
    by (simp add: process_frame_def routes_analyze_frame_for_ppe_status_def
          snapshot_logic_def logging_logic_def alerting_logic_def app_config_def
          sample_frame_io_def sample_state_def)
  have bad: "read_frame (sample_frame_io 2 None 1002 (Some 2)) = Some 2"
    "detect (sample_frame_io 2 None 1002 (Some 2)) = None"
    by (simp_all add: sample_frame_io_def)
  show ?thesis
    using detector_exception_ends_stream [OF bad pre] by simp
qed

text \<open>
  C1 as stated fails: the detector raises on the first frame, the source holds a second,
  good frame, and the stream ends with the logged error; the second frame is never
  yielded.
\<close>

theorem detector_exception_counterexample:
  "generate_frames app_config 1000 0 (new_alert_manager 60)
      [sample_frame_io 1 None 1001 (Some 1), sample_frame_io 2 (Some []) 1002 (Some 2)]
     = ([Log ErrorDuringFrameGeneration], sample_state 1000, ExceptionCaught)"
  by (simp add: generate_frames_def sample_frame_io_def sample_state_def)

subsection \<open>The snapshot trigger\<close>

lemma logging_logic_no_snapshot:
  "filter is_snapshot_call (snd (logging_logic cfg l t a p r)) = []"
  by (auto simp: logging_logic_def save_violation_events_def filter_empty_conv
        split: option.splits)

lemma alert_detail_no_snapshot:
  "filter is_snapshot_call (snd (alert_detail mgr io d)) = []"
  by (simp add: alert_detail_def split: prod.splits)

lemma alerting_loop_no_snapshot:
  "filter is_snapshot_call (snd (alerting_loop mgr ios i ds)) = []"
proof (induction ds arbitrary: mgr i)
  case Nil
  then show ?case by simp
next
  case (Cons d ds)
  obtain mgr1 effs1 where a: "alert_detail mgr (ios i) d = (mgr1, effs1)"
    by (cases "alert_detail mgr (ios i) d")
  have "filter is_snapshot_call effs1 = []"
    using alert_detail_no_snapshot [of mgr "ios i" d] a by simp
  with Cons.IH [of mgr1 "i + 1"] a show ?case
    by (simp add: split_beta)
qed

lemma alerting_logic_no_snapshot:
  "filter is_snapshot_call (snd (alerting_logic mgr ios a)) = []"
  by (simp add: alerting_logic_def alerting_loop_no_snapshot)

lemma process_frame_snapshot_calls:
  "filter is_snapshot_call (snd (process_frame cfg st f dets io))
     = filter is_snapshot_call (snd (snd (snapshot_logic cfg (consecutive_violation_frames st)
         (snapshot_path st) (violations_count (routes_analyze_frame_for_ppe_status dets)) f
         (snapshot_saved io))))"
proof -
  obtain c p se where s: "snapshot_logic cfg (consecutive_violation_frames st)
         (snapshot_path st) (violations_count (routes_analyze_frame_for_ppe_status dets)) f
         (snapshot_saved io) = (c, p, se)"
    by (cases "snapshot_logic cfg (consecutive_violation_frames st)
         (snapshot_path st) (violations_count (routes_analyze_frame_for_ppe_status dets)) f
         (snapshot_saved io)")
  obtain l le where lg: "logging_logic cfg (last_log_time st) (current_time io)
         (routes_analyze_frame_for_ppe_status dets) p (compliance_log_id io) = (l, le)"
    by (cases "logging_logic cfg (last_log_time st) (current_time io)
         (routes_analyze_frame_for_ppe_status dets) p (compliance_log_id io)")
  obtain m ae where al: "alerting_logic (manager st) (alert_ios io)
         (routes_analyze_frame_for_ppe_status dets) = (m, ae)"
    by (cases "alerting_logic (manager st) (alert_ios io)
         (routes_analyze_frame_for_ppe_status dets)")
  have "filter is_snapshot_call le = []"
    using logging_logic_no_snapshot [of cfg "last_log_time st" "current_time io"
        "routes_analyze_frame_for_ppe_status dets" p "compliance_log_id io"] lg by simp
  moreover have "filter is_snapshot_call ae = []"
    using alerting_logic_no_snapshot [of "manager st" "alert_ios io"
        "routes_analyze_frame_for_ppe_status dets"] al by simp
  ultimately show ?thesis
    using s lg al by (simp add: process_frame_def Let_def)
qed

lemma violating_streak_below_threshold:
  "SAVE_VIOLATION_SNAPSHOT cfg \<Longrightarrow> \<forall>io \<in> set ios. violating io \<Longrightarrow>
   consecutive_violation_frames st + int (length ios) < SNAPSHOT_CONSECUTIVE_VIOLATIONS cfg \<Longrightarrow>
     filter is_snapshot_call (fst (frames_loop cfg st ios)) = []
     \<and> consecutive_violation_frames (fst (snd (frames_loop cfg st ios)))
         = consecutive_violation_frames st + int (length ios)
     \<and> snd (snd (frames_loop cfg st ios)) = StillRunning"
proof (induction ios arbitrary: st)
  case Nil
  then show ?case by simp
next
  case (Cons io ios)
  from Cons.prems(2) obtain f dets where io: "read_frame io = Some f" "detect io = Some dets"
    and v: "0 < violations_count (routes_analyze_frame_for_ppe_status dets)"
    by (auto simp: violating_def split: option.splits)
  let ?st1 = "fst (process_frame cfg st f dets io)"
  let ?e1 = "snd (process_frame cfg st f dets io)"
  have below: "\<not> SNAPSHOT_CONSECUTIVE_VIOLATIONS cfg \<le> consecutive_violation_frames st + 1"
    using Cons.prems(3) by simp
  have c1: "consecutive_violation_frames ?st1 = consecutive_violation_frames st + 1"
    using Cons.prems(1) v below
    by (simp add: process_frame_consecutive snapshot_logic_def Let_def)
  have s1: "filter is_snapshot_call ?e1 = []"
    using Cons.prems(1) v below
    by (simp add: process_frame_snapshot_calls snapshot_logic_def Let_def)
  have "consecutive_violation_frames ?st1 + int (length ios)
          < SNAPSHOT_CONSECUTIVE_VIOLATIONS cfg"
    using Cons.prems(3) c1 by simp
  with Cons.IH [of ?st1] Cons.prems(1,2)
  have ih: "filter is_snapshot_call (fst (frames_loop cfg ?st1 ios)) = []"
    "consecutive_violation_frames (fst (snd (frames_loop cfg ?st1 ios)))
       = consecutive_violation_frames ?st1 + int (length ios)"
    "snd (snd (frames_loop cfg ?st1 ios)) = StillRunning"
    by simp_all
  show ?case
    using io s1 ih c1 by (simp add: split_beta)
qed

text \<open>
  C3. Snapshot saving is enabled (as \<^verbatim>\<open>Config\<close> sets it) and the threshold \<open>N\<close> is
  positive. Starting from a counter of 0, the first \<open>N - 1\<close> violating frames request no
  snapshot, the \<open>N\<close>-th requests exactly one, and the counter is 0 again right after,
  whatever the snapshot writer returns. A frame without violations requests no snapshot
  and leaves the counter at 0, from any state.
\<close>

theorem snapshot_fires_on_nth_violating_frame:
  "SAVE_VIOLATION_SNAPSHOT cfg \<Longrightarrow> 0 < SNAPSHOT_CONSECUTIVE_VIOLATIONS cfg \<Longrightarrow>
   consecutive_violation_frames st = 0 \<Longrightarrow>
   int (length ios) + 1 = SNAPSHOT_CONSECUTIVE_VIOLATIONS cfg \<Longrightarrow>
   \<forall>io \<in> set ios. violating io \<Longrightarrow>
   read_frame io = Some f \<Longrightarrow> detect io = Some dets \<Longrightarrow>
   0 < violations_count (routes_analyze_frame_for_ppe_status dets) \<Longrightarrow>
     filter is_snapshot_call (fst (frames_loop cfg st ios)) = []
     \<and> filter is_snapshot_call (fst (frames_loop cfg st (ios @ [io])))
         = [SaveFrameSnapshot f (snapshot_saved io)]
     \<and> consecutive_violation_frames (fst (snd (frames_loop cfg st (ios @ [io])))) = 0
     \<and> snd (snd (frames_loop cfg st (ios @ [io]))) = StillRunning
     \<and> (\<forall>st' f' dets' io'.
          violations_count (routes_analyze_frame_for_ppe_status dets') = 0 \<longrightarrow>
            filter is_snapshot_call (snd (process_frame cfg st' f' dets' io')) = []
            \<and> consecutive_violation_frames (fst (process_frame cfg st' f' dets' io')) = 0)"
proof -
  assume en: "SAVE_VIOLATION_SNAPSHOT cfg"
    and pos: "0 < SNAPSHOT_CONSECUTIVE_VIOLATIONS cfg"
    and zero: "consecutive_violation_frames st = 0"
    and len: "int (length ios) + 1 = SNAPSHOT_CONSECUTIVE_VIOLATIONS cfg"
    and viol: "\<forall>io \<in> set ios. violating io"
    and io: "read_frame io = Some f" "detect io = Some dets"
    and v: "0 < violations_count (routes_analyze_frame_for_ppe_status dets)"
  have "consecutive_violation_frames st + int (length ios)
          < SNAPSHOT_CONSECUTIVE_VIOLATIONS cfg"
    using zero len by simp
  from violating_streak_below_threshold [OF en viol this]
  have pre: "filter is_snapshot_call (fst (frames_loop cfg st ios)) = []"
    "consecutive_violation_frames (fst (snd (frames_loop cfg st ios))) = int (length ios)"
    "snd (snd (frames_loop cfg st ios)) = StillRunning"
    using zero by simp_all
  let ?st1 = "fst (snd (frames_loop cfg st ios))"
  have run: "frames_loop cfg st ios = (fst (frames_loop cfg st ios), ?st1, StillRunning)"
    using pre(3) by (simp add: prod_eq_iff)
  have reach: "SNAPSHOT_CONSECUTIVE_VIOLATIONS cfg \<le> consecutive_violation_frames ?st1 + 1"
    using pre(2) len by simp
  have last_calls: "filter is_snapshot_call (snd (process_frame cfg ?st1 f dets io))
      = [SaveFrameSnapshot f (snapshot_saved io)]"
    using en v reach
    by (simp add: process_frame_snapshot_calls snapshot_logic_def Let_def
          split: option.splits)
  have last_counter: "consecutive_violation_frames (fst (process_frame cfg ?st1 f dets io)) = 0"
    using en v reach by (simp add: process_frame_consecutive snapshot_logic_def Let_def)
  have whole: "frames_loop cfg st (ios @ [io])
      = (fst (frames_loop cfg st ios) @ snd (process_frame cfg ?st1 f dets io),
         fst (process_frame cfg ?st1 f dets io), StillRunning)"
    using frames_loop_running_append [OF run, of "[io]"] io by (simp add: split_beta)
  have quiet: "\<forall>st' f' dets' io'.
      violations_count (routes_analyze_frame_for_ppe_status dets') = 0 \<longrightarrow>
        filter is_snapshot_call (snd (process_frame cfg st' f' dets' io')) = []
        \<and> consecutive_violation_frames (fst (process_frame cfg st' f' dets' io')) = 0"
    by (simp add: process_frame_snapshot_calls process_frame_consecutive snapshot_logic_def)
  show ?thesis
    using pre(1) whole last_calls last_counter quiet by simp
qed

theorem snapshot_fires_on_nth_violating_frame_witness:
  "filter is_snapshot_call (fst (frames_loop app_config (sample_state 1000)
      [sample_frame_io 1 (Some [sample_detection ''no-helmet'']) 1001 (Some 1),
       sample_frame_io 2 (Some [sample_detection ''no-helmet'']) 1002 (Some 1),
       sample_frame_io 3 (Some [sample_detection ''no-helmet'']) 1003 (Some 1),
       sample_frame_io 4 (Some [sample_detection ''no-helmet'']) 1004 (Some 1)])) = []
   \<and> filter is_snapshot_call (fst (frames_loop app_config (sample_state 1000)
      ([sample_frame_io 1 (Some [sample_detection ''no-helmet'']) 1001 (Some 1),
        sample_frame_io 2 (Some [sample_detection ''no-helmet'']) 1002 (Some 1),
        sample_frame_io 3 (Some [sample_detection ''no-helmet'']) 1003 (Some 1),
        sample_frame_io 4 (Some [sample_detection ''no-helmet'']) 1004 (Some 1)]
       @ [sample_frame_io 5 (Some [sample_detection ''no-helmet'']) 1005 (Some 1)])))
     = [SaveFrameSnapshot 5 (Some ''snapshots/s.jpg'')]
   \<and> consecutive_violation_frames (fst (snd (frames_loop app_config (sample_state 1000)
      ([sample_frame_io 1 (Some [sample_detection ''no-helmet'']) 1001 (Some 1),
        sample_frame_io 2 (Some [sample_detection ''no-helmet'']) 1002 (Some 1),
        sample_frame_io 3 (Some [sample_detection ''no-helmet'']) 1003 (Some 1),
        sample_frame_io 4 (Some [sample_detection ''no-helmet'']) 1004 (Some 1)]
       @ [sample_frame_io 5 (Some [sample_detection ''no-helmet'']) 1005 (Some 1)])))) = 0"
proof -
  let ?dets = "[sample_detection ''no-helmet'']"
  let ?ios = "[sample_frame_io 1 (Some ?dets) 1001 (Some 1),
               sample_frame_io 2 (Some ?dets) 1002 (Some 1),
               sample_frame_io 3 (Some ?dets) 1003 (Some 1),
               sample_frame_io 4 (Some ?dets) 1004 (Some 1)]"
  let ?io = "sample_frame_io 5 (Some ?dets) 1005 (Some 1)"
  have v: "0 < violations_count (routes_analyze_frame_for_ppe_status ?dets)"
    by (simp add: routes_analyze_frame_for_ppe_status_def sample_detection_def)
  have all: "\<forall>io \<in> set ?ios. violating io"
    using v by (simp add: violating_def sample_frame_io_def)
  have cfg: "SAVE_VIOLATION_SNAPSHOT app_config"
    "0 < SNAPSHOT_CONSECUTIVE_VIOLATIONS app_config"
    "int (length ?ios) + 1 = SNAPSHOT_CONSECUTIVE_VIOLATIONS app_config"
    by (simp_all add: app_config_def)
  have st: "consecutive_violation_frames (sample_state 1000) = 0"
    by (simp add: sample_state_def)
  have io: "read_frame ?io = Some 5" "detect ?io = Some ?dets"
    "snapshot_saved ?io = Some ''snapshots/s.jpg''"
    by (simp_all add: sample_frame_io_def)
  show ?thesis
    using snapshot_fires_on_nth_violating_frame [OF cfg(1,2) st cfg(3) all io(1,2) v] io(3)
    by simp
qed

subsection \<open>The periodic logging\<close>

lemma logging_logic_due:
  "real_of_int (LOG_INTERVAL_SECONDS cfg) \<le> now - l \<Longrightarrow>
     logging_logic cfg l now a p r
       = (now,
          SaveComplianceLog (person_count a) (ppe_worn_count a) (violations_count a)
             (status_message a) (if truthy p then p else None) r
          # (case r of
               Some i \<Rightarrow> if violations_count a > 0
                         then save_violation_events i (violation_details a) else []
             | None \<Rightarrow> [Log FailedToSaveComplianceLog]))"
  by (simp add: logging_logic_def)

lemma logging_logic_not_due:
  "\<not> real_of_int (LOG_INTERVAL_SECONDS cfg) \<le> now - l \<Longrightarrow>
     logging_logic cfg l now a p r = (l, [])"
  by (simp add: logging_logic_def)

lemma filter_persistence_events [simp]:
  "filter is_persistence (save_violation_events i ds) = save_violation_events i ds"
  by (simp add: save_violation_events_def)

lemma filter_compliance_events [simp]:
  "filter is_compliance_write (save_violation_events i ds) = []"
  by (simp add: save_violation_events_def)

lemma filter_event_events [simp]:
  "filter is_event_write (save_violation_events i ds) = save_violation_events i ds"
  by (simp add: save_violation_events_def)

lemma routes_violations_count_length:
  "violations_count (routes_analyze_frame_for_ppe_status dets)
     = length (violation_details (routes_analyze_frame_for_ppe_status dets))"
  by (simp add: routes_analyze_frame_for_ppe_status_def Let_def)

lemma filter_none:
  "(\<And>e. e \<in> set xs \<Longrightarrow> \<not> P e) \<Longrightarrow> filter P xs = []"
  by (simp add: filter_empty_conv)

lemma process_frame_filter_persistence:
  "filter is_persistence (snd (process_frame cfg st f dets io))
     = filter is_persistence
         (snd (logging_logic cfg (last_log_time st) (current_time io)
           (routes_analyze_frame_for_ppe_status dets)
           (fst (snd (snapshot_logic cfg (consecutive_violation_frames st) (snapshot_path st)
              (violations_count (routes_analyze_frame_for_ppe_status dets)) f
              (snapshot_saved io))))
           (compliance_log_id io)))"
proof -
  have "filter is_persistence
          (snd (snd (snapshot_logic cfg (consecutive_violation_frames st) (snapshot_path st)
             (violations_count (routes_analyze_frame_for_ppe_status dets)) f
             (snapshot_saved io)))) = []"
    by (rule filter_none) (simp add: snapshot_logic_no_write)
  moreover have "filter is_persistence
          (snd (alerting_logic (manager st) (alert_ios io)
             (routes_analyze_frame_for_ppe_status dets))) = []"
    by (rule filter_none) (simp add: alerting_logic_no_write)
  ultimately show ?thesis
    by (simp add: process_frame_effects)
qed

lemma process_frame_filter_compliance:
  "filter is_compliance_write (snd (process_frame cfg st f dets io))
     = filter is_compliance_write
         (snd (logging_logic cfg (last_log_time st) (current_time io)
           (routes_analyze_frame_for_ppe_status dets)
           (fst (snd (snapshot_logic cfg (consecutive_violation_frames st) (snapshot_path st)
              (violations_count (routes_analyze_frame_for_ppe_status dets)) f
              (snapshot_saved io))))
           (compliance_log_id io)))"
proof -
  have "filter is_compliance_write
          (snd (snd (snapshot_logic cfg (consecutive_violation_frames st) (snapshot_path st)
             (violations_count (routes_analyze_frame_for_ppe_status dets)) f
             (snapshot_saved io)))) = []"
    by (rule filter_none) (simp add: snapshot_logic_no_write)
  moreover have "filter is_compliance_write
          (snd (alerting_logic (manager st) (alert_ios io)
             (routes_analyze_frame_for_ppe_status dets))) = []"
    by (rule filter_none) (simp add: alerting_logic_no_write)
  ultimately show ?thesis
    by (simp add: process_frame_effects)
qed

text \<open>
  C5, as the code has it. At an iteration where the log interval has elapsed, exactly one
  compliance-log write occurs. When it returns an id it is followed by one
  violation-event write for every violation detail of that iteration's frame, in order,
  each carrying the id and the detail's type, box, confidence and severity; when it
  returns no id, no violation-event write follows. Details of earlier frames of the
  interval are not written. At an iteration where the interval has not elapsed nothing
  is written.
\<close>

theorem flush_writes_current_frame_events:
  "(real_of_int (LOG_INTERVAL_SECONDS cfg) \<le> current_time io - last_log_time st \<longrightarrow>
      filter is_persistence (snd (process_frame cfg st f dets io))
        = SaveComplianceLog
            (person_count (routes_analyze_frame_for_ppe_status dets))
            (ppe_worn_count (routes_analyze_frame_for_ppe_status dets))
            (violations_count (routes_analyze_frame_for_ppe_status dets))
            (status_message (routes_analyze_frame_for_ppe_status dets))
            (logged_snapshot_path cfg st f dets io) (compliance_log_id io)
          # (case compliance_log_id io of
               None \<Rightarrow> []
             | Some i \<Rightarrow>
                 map (\<lambda>d. SaveViolationEvent i (violation_type d) (location_box d)
                             (vd_confidence d) (severity d))
                   (violation_details (routes_analyze_frame_for_ppe_status dets))))
   \<and> (\<not> real_of_int (LOG_INTERVAL_SECONDS cfg) \<le> current_time io - last_log_time st \<longrightarrow>
        filter is_persistence (snd (process_frame cfg st f dets io)) = [])"
proof (cases "real_of_int (LOG_INTERVAL_SECONDS cfg) \<le> current_time io - last_log_time st")
  case True
  have none: "violation_details (routes_analyze_frame_for_ppe_status dets) = []"
    if "violations_count (routes_analyze_frame_for_ppe_status dets) = 0"
    using that by (simp add: routes_violations_count_length)
  show ?thesis
    using True none
    by (cases "compliance_log_id io")
       (auto simp: process_frame_filter_persistence logging_logic_due
          save_violation_events_def logged_snapshot_path_def Let_def)
next
  case False
  then show ?thesis
    by (simp add: process_frame_filter_persistence logging_logic_not_due)
qed

lemma analysis_of_missing_helmet:
  "routes_analyze_frame_for_ppe_status [sample_detection ''no-helmet'']
     = \<lparr>person_count = 0, ppe_worn_count = 0, violations_count = 1,
        status_message = ''1 Violation(s) Detected'',
        violation_details =
          [\<lparr>violation_type = ''no-helmet'', location_box = [10, 20, 110, 220],
            vd_confidence = 9 / 10, severity = 3\<rparr>]\<rparr>"
  by (simp add: routes_analyze_frame_for_ppe_status_def routes_status_message_def
        routes_violation_of_def sample_detection_def str_nat_digit digit_char_def)

lemma analysis_of_nothing:
  "routes_analyze_frame_for_ppe_status []
     = \<lparr>person_count = 0, ppe_worn_count = 0, violations_count = 0,
        status_message = ''No persons detected'', violation_details = []\<rparr>"
  by (simp add: routes_analyze_frame_for_ppe_status_def routes_status_message_def)

theorem flush_writes_current_frame_events_witness:
  "filter is_persistence (snd (process_frame app_config (sample_state 1000) 7
      [sample_detection ''no-helmet'']
      (sample_frame_io 7 (Some [sample_detection ''no-helmet'']) 1006 (Some 42))))
     = [SaveComplianceLog 0 0 1 ''1 Violation(s) Detected'' None (Some 42),
        SaveViolationEvent 42 ''no-helmet'' [10, 20, 110, 220] (9 / 10) 3]"
proof -
  let ?dets = "[sample_detection ''no-helmet'']"
  let ?io = "sample_frame_io 7 (Some ?dets) 1006 (Some 42)"
  have due: "real_of_int (LOG_INTERVAL_SECONDS app_config)
      \<le> current_time ?io - last_log_time (sample_state 1000)"
    by (simp add: app_config_def sample_frame_io_def sample_state_def)
  have path: "logged_snapshot_path app_config (sample_state 1000) 7 ?dets ?io = None"
    by (simp add: logged_snapshot_path_def snapshot_logic_def analysis_of_missing_helmet
          app_config_def sample_state_def truthy_def)
  have id: "compliance_log_id ?io = Some 42"
    by (simp add: sample_frame_io_def)
  show ?thesis
    using flush_writes_current_frame_events
        [of app_config ?io "sample_state 1000" 7 ?dets] due
    by (simp add: analysis_of_missing_helmet path id)
qed

text \<open>
  C5 as stated fails. The first frame of an interval carries a missing helmet and is not
  a flush point; the second frame, five seconds later, is empty and is the flush point.
  One violation event was produced since the previous flush, and the flush writes the
  compliance log of the empty frame and no violation event.
\<close>

theorem flush_drops_earlier_events_counterexample:
  "filter is_persistence (fst (generate_frames app_config 1000 0 (new_alert_manager 60)
      [sample_frame_io 1 (Some [sample_detection ''no-helmet'']) 1001 (Some 1),
       sample_frame_io 2 (Some []) 1006 (Some 2)]))
     = [SaveComplianceLog 0 0 0 ''No persons detected'' None (Some 2)]
   \<and> length (violation_details
        (routes_analyze_frame_for_ppe_status [sample_detection ''no-helmet''])) = 1"
proof -
  let ?io1 = "sample_frame_io 1 (Some [sample_detection ''no-helmet'']) 1001 (Some 1)"
  let ?io2 = "sample_frame_io 2 (Some []) 1006 (Some 2)"
  let ?st0 = "\<lparr>consecutive_violation_frames = 0, last_log_time = 1000,
               snapshot_path = None, manager = new_alert_manager 60\<rparr>"
  let ?st1 = "fst (process_frame app_config ?st0 1 [sample_detection ''no-helmet''] ?io1)"
  have first: "filter is_persistence
      (snd (process_frame app_config ?st0 1 [sample_detection ''no-helmet''] ?io1)) = []"
    by (simp add: process_frame_filter_persistence logging_logic_def app_config_def
          sample_frame_io_def)
  have first_time: "last_log_time ?st1 = 1000"
    by (simp add: process_frame_last_log_time logging_logic_def app_config_def
          sample_frame_io_def)
  have first_path: "snapshot_path ?st1 = None"
    by (simp add: process_frame_def Let_def split_beta snapshot_logic_def app_config_def
          analysis_of_missing_helmet)
  have second: "filter is_persistence (snd (process_frame app_config ?st1 2 [] ?io2))
      = [SaveComplianceLog 0 0 0 ''No persons detected'' None (Some 2)]"
    using first_time first_path
    by (simp add: process_frame_filter_persistence logging_logic_def app_config_def
          sample_frame_io_def analysis_of_nothing snapshot_logic_def truthy_def)
  have io: "read_frame ?io1 = Some 1" "detect ?io1 = Some [sample_detection ''no-helmet'']"
    "read_frame ?io2 = Some 2" "detect ?io2 = Some []"
    by (simp_all add: sample_frame_io_def)
  have "filter is_persistence (fst (frames_loop app_config ?st0 [?io1, ?io2]))
     = [SaveComplianceLog 0 0 0 ''No persons detected'' None (Some 2)]"
    using first second io by (simp add: split_beta)
  then show ?thesis
    by (simp add: generate_frames_def analysis_of_missing_helmet)
qed

lemma no_flush_within_interval:
  "last_log_time st = t \<Longrightarrow>
   \<forall>io \<in> set ios. \<not> real_of_int (LOG_INTERVAL_SECONDS cfg) \<le> current_time io - t \<Longrightarrow>
     filter is_compliance_write (fst (frames_loop cfg st ios)) = []
     \<and> last_log_time (fst (snd (frames_loop cfg st ios))) = t"
proof (induction ios arbitrary: st)
  case Nil
  then show ?case by simp
next
  case (Cons io ios)
  show ?case
  proof (cases "read_frame io")
    case None
    then show ?thesis using Cons.prems by simp
  next
    case (Some f)
    show ?thesis
    proof (cases "detect io")
      case None
      then show ?thesis using Some Cons.prems by simp
    next
      case (Some dets)
      let ?st1 = "fst (process_frame cfg st f dets io)"
      have nd: "\<not> real_of_int (LOG_INTERVAL_SECONDS cfg) \<le> current_time io - last_log_time st"
        using Cons.prems by simp
      have t1: "last_log_time ?st1 = t"
        using nd Cons.prems(1) by (simp add: process_frame_last_log_time logging_logic_not_due)
      have w1: "filter is_compliance_write (snd (process_frame cfg st f dets io)) = []"
        using nd by (simp add: process_frame_filter_compliance logging_logic_not_due)
      from Cons.IH [OF t1] Cons.prems(2)
      have "filter is_compliance_write (fst (frames_loop cfg ?st1 ios)) = []"
        "last_log_time (fst (snd (frames_loop cfg ?st1 ios))) = t"
        by simp_all
      then show ?thesis
        using \<open>read_frame io = Some f\<close> Some w1 by (simp add: split_beta)
    qed
  qed
qed

lemma frames_loop_still_running:
  "\<forall>io \<in> set ios. read_frame io \<noteq> None \<and> detect io \<noteq> None \<Longrightarrow>
     snd (snd (frames_loop cfg st ios)) = StillRunning"
  by (induction ios arbitrary: st) (auto simp: split_beta)

lemma frames_loop_triple:
  "snd (snd (frames_loop cfg st ios)) = StillRunning \<Longrightarrow>
     frames_loop cfg st ios
       = (fst (frames_loop cfg st ios), fst (snd (frames_loop cfg st ios)), StillRunning)"
  by (simp add: prod_eq_iff)

text \<open>
  C6. When the frames before a flush point have all been processed, the compliance log
  written at the flush point carries the person count, the worn count, the violation
  count and the status of the frame observed at that iteration alone: the last frame of
  the interval, whatever the earlier frames held.
\<close>

theorem flushed_metrics_are_last_frame:
  "frames_loop cfg st pre = (effs, st1, StillRunning) \<Longrightarrow>
   read_frame io = Some f \<Longrightarrow> detect io = Some dets \<Longrightarrow>
   real_of_int (LOG_INTERVAL_SECONDS cfg) \<le> current_time io - last_log_time st1 \<Longrightarrow>
     filter is_compliance_write (fst (frames_loop cfg st (pre @ [io])))
       = filter is_compliance_write effs
         @ [SaveComplianceLog
              (person_count (routes_analyze_frame_for_ppe_status dets))
              (ppe_worn_count (routes_analyze_frame_for_ppe_status dets))
              (violations_count (routes_analyze_frame_for_ppe_status dets))
              (status_message (routes_analyze_frame_for_ppe_status dets))
              (logged_snapshot_path cfg st1 f dets io) (compliance_log_id io)]"
proof -
  assume run: "frames_loop cfg st pre = (effs, st1, StillRunning)"
    and io: "read_frame io = Some f" "detect io = Some dets"
    and due: "real_of_int (LOG_INTERVAL_SECONDS cfg) \<le> current_time io - last_log_time st1"
  have "filter is_compliance_write (snd (process_frame cfg st1 f dets io))
      = [SaveComplianceLog
           (person_count (routes_analyze_frame_for_ppe_status dets))
           (ppe_worn_count (routes_analyze_frame_for_ppe_status dets))
           (violations_count (routes_analyze_frame_for_ppe_status dets))
           (status_message (routes_analyze_frame_for_ppe_status dets))
           (logged_snapshot_path cfg st1 f dets io) (compliance_log_id io)]"
    using due
    by (cases "compliance_log_id io")
       (simp_all add: process_frame_filter_compliance logging_logic_due
          logged_snapshot_path_def Let_def)
  then show ?thesis
    using frames_loop_running_append [OF run, of "[io]"] io by (simp add: split_beta)
qed

lemma analysis_of_person:
  "routes_analyze_frame_for_ppe_status [sample_detection ''person'']
     = \<lparr>person_count = 1, ppe_worn_count = 0, violations_count = 0,
        status_message = ''Compliant (Persons detected, no violations)'',
        violation_details = []\<rparr>"
  by (simp add: routes_analyze_frame_for_ppe_status_def routes_status_message_def
        sample_detection_def)

theorem flushed_metrics_are_last_frame_witness:
  "filter is_compliance_write (fst (frames_loop app_config (sample_state 1000)
      ([sample_frame_io 101 (Some [sample_detection ''person'', sample_detection ''helmet''])
          1001 (Some 1),
        sample_frame_io 102 (Some [sample_detection ''no-helmet'']) 1002 (Some 2)]
       @ [sample_frame_io 103 (Some [sample_detection ''person'']) 1006 (Some 3)])))
     = [SaveComplianceLog 1 0 0 ''Compliant (Persons detected, no violations)'' None (Some 3)]"
proof -
  let ?d1 = "[sample_detection ''person'', sample_detection ''helmet'']"
  let ?d2 = "[sample_detection ''no-helmet'']"
  let ?d3 = "[sample_detection ''person'']"
  let ?io1 = "sample_frame_io 101 (Some ?d1) 1001 (Some 1)"
  let ?io2 = "sample_frame_io 102 (Some ?d2) 1002 (Some 2)"
  let ?io3 = "sample_frame_io 103 (Some ?d3) 1006 (Some 3)"
  let ?st = "sample_state 1000"
  let ?s1 = "fst (process_frame app_config ?st 101 ?d1 ?io1)"
  let ?s2 = "fst (process_frame app_config ?s1 102 ?d2 ?io2)"
  let ?end = "fst (snd (frames_loop app_config ?st [?io1, ?io2]))"
  have io: "read_frame ?io1 = Some 101" "detect ?io1 = Some ?d1"
    "read_frame ?io2 = Some 102" "detect ?io2 = Some ?d2"
    "read_frame ?io3 = Some 103" "detect ?io3 = Some ?d3"
    "compliance_log_id ?io3 = Some 3" "current_time ?io3 = 1006"
    by (simp_all add: sample_frame_io_def)
  have v1: "violations_count (routes_analyze_frame_for_ppe_status ?d1) = 0"
    by (simp add: routes_analyze_frame_for_ppe_status_def sample_detection_def)
  have s1: "consecutive_violation_frames ?s1 = 0" "snapshot_path ?s1 = None"
    using v1
    by (simp_all add: process_frame_consecutive process_frame_snapshot_path
          snapshot_logic_def sample_state_def)
  have s2: "consecutive_violation_frames ?s2 = 1" "snapshot_path ?s2 = None"
    using s1
    by (simp_all add: process_frame_consecutive process_frame_snapshot_path
          snapshot_logic_def analysis_of_missing_helmet app_config_def)
  have quiet: "filter is_compliance_write (fst (frames_loop app_config ?st [?io1, ?io2])) = []
      \<and> last_log_time ?end = 1000"
    by (rule no_flush_within_interval)
       (simp_all add: sample_state_def sample_frame_io_def app_config_def)
  have "snd (snd (frames_loop app_config ?st [?io1, ?io2])) = StillRunning"
    by (rule frames_loop_still_running) (simp add: sample_frame_io_def)
  then have run: "frames_loop app_config ?st [?io1, ?io2]
      = (fst (frames_loop app_config ?st [?io1, ?io2]), ?end, StillRunning)"
    by (rule frames_loop_triple)
  have end_state: "?end = ?s2"
    using io(1-4) by (simp add: split_beta)
  have llt: "last_log_time ?end = 1000"
    using quiet by (rule conjunct2)
  have due: "real_of_int (LOG_INTERVAL_SECONDS app_config)
      \<le> current_time ?io3 - last_log_time ?end"
    unfolding llt io(8) by (simp add: app_config_def)
  have path: "logged_snapshot_path app_config ?end 103 ?d3 ?io3 = None"
    unfolding end_state using s2
    by (simp add: logged_snapshot_path_def snapshot_logic_def analysis_of_person truthy_def)
  have "filter is_compliance_write (fst (frames_loop app_config ?st ([?io1, ?io2] @ [?io3])))
      = filter is_compliance_write (fst (frames_loop app_config ?st [?io1, ?io2]))
        @ [SaveComplianceLog
             (person_count (routes_analyze_frame_for_ppe_status ?d3))
             (ppe_worn_count (routes_analyze_frame_for_ppe_status ?d3))
             (violations_count (routes_analyze_frame_for_ppe_status ?d3))
             (status_message (routes_analyze_frame_for_ppe_status ?d3))
             (logged_snapshot_path app_config ?end 103 ?d3 ?io3) (compliance_log_id ?io3)]"
    by (rule flushed_metrics_are_last_frame [OF run io(5,6) due])
  then show ?thesis
    unfolding path io(7) analysis_of_person quiet [THEN conjunct1] by simp
qed

text \<open>
  C7. At an iteration where the log interval has elapsed, exactly one compliance-log
  write occurs and \<^verbatim>\<open>last_log_time\<close> becomes the current time, whatever the write
  returns (an id or none). In the iterations that follow, as long as their clock
  readings stay less than one interval after that time, no compliance-log write occurs
  and \<^verbatim>\<open>last_log_time\<close> stays: one flush at most per elapsed interval.
\<close>

theorem flush_resets_window_start:
  "real_of_int (LOG_INTERVAL_SECONDS cfg) \<le> current_time io - last_log_time st \<Longrightarrow>
   \<forall>io' \<in> set ios.
      \<not> real_of_int (LOG_INTERVAL_SECONDS cfg) \<le> current_time io' - current_time io \<Longrightarrow>
     last_log_time (fst (process_frame cfg st f dets io)) = current_time io
     \<and> length (filter is_compliance_write (snd (process_frame cfg st f dets io))) = 1
     \<and> filter is_compliance_write
          (fst (frames_loop cfg (fst (process_frame cfg st f dets io)) ios)) = []
     \<and> last_log_time (fst (snd (frames_loop cfg (fst (process_frame cfg st f dets io)) ios)))
         = current_time io"
proof -
  assume due: "real_of_int (LOG_INTERVAL_SECONDS cfg) \<le> current_time io - last_log_time st"
    and near: "\<forall>io' \<in> set ios.
      \<not> real_of_int (LOG_INTERVAL_SECONDS cfg) \<le> current_time io' - current_time io"
  have t: "last_log_time (fst (process_frame cfg st f dets io)) = current_time io"
    using due by (simp add: process_frame_last_log_time logging_logic_due)
  have one: "length (filter is_compliance_write (snd (process_frame cfg st f dets io))) = 1"
    using due
    by (cases "compliance_log_id io")
       (simp_all add: process_frame_filter_compliance logging_logic_due)
  from no_flush_within_interval [OF t near] t one show ?thesis
    by simp
qed

theorem flush_resets_window_start_witness:
  "last_log_time (fst (process_frame app_config (sample_state 1000) 101
      [sample_detection ''no-helmet'']
      (sample_frame_io 101 (Some [sample_detection ''no-helmet'']) 1006 None))) = 1006
   \<and> length (filter is_compliance_write (snd (process_frame app_config (sample_state 1000) 101
      [sample_detection ''no-helmet'']
      (sample_frame_io 101 (Some [sample_detection ''no-helmet'']) 1006 None)))) = 1
   \<and> filter is_compliance_write (fst (frames_loop app_config
      (fst (process_frame app_config (sample_state 1000) 101
         [sample_detection ''no-helmet'']
         (sample_frame_io 101 (Some [sample_detection ''no-helmet'']) 1006 None)))
      [sample_frame_io 102 (Some [sample_detection ''no-helmet'']) 1007 (Some 2),
       sample_frame_io 103 (Some []) 1010 (Some 3)])) = []"
proof -
  let ?io = "sample_frame_io 101 (Some [sample_detection ''no-helmet'']) 1006 None"
  let ?ios = "[sample_frame_io 102 (Some [sample_detection ''no-helmet'']) 1007 (Some 2),
               sample_frame_io 103 (Some []) 1010 (Some 3)]"
  have t: "current_time ?io = 1006"
    by (simp add: sample_frame_io_def)
  have due: "real_of_int (LOG_INTERVAL_SECONDS app_config)
      \<le> current_time ?io - last_log_time (sample_state 1000)"
    by (simp add: app_config_def sample_frame_io_def sample_state_def)
  have near: "\<forall>io' \<in> set ?ios.
      \<not> real_of_int (LOG_INTERVAL_SECONDS app_config) \<le> current_time io' - current_time ?io"
    by (simp add: app_config_def sample_frame_io_def)
  show ?thesis
    using flush_resets_window_start [OF due near, of 101 "[sample_detection ''no-helmet'']"]
    unfolding t by simp
qed

subsection \<open>Violation events reference a saved compliance log\<close>

lemma well_referenced_append:
  "well_referenced c xs \<Longrightarrow> (\<And>c'. well_referenced c' ys) \<Longrightarrow>
     well_referenced c (xs @ ys)"
  by (induction c xs rule: well_referenced.induct) simp_all

lemma well_referenced_no_events:
  "\<forall>e \<in> set xs. \<not> is_event_write e \<Longrightarrow> well_referenced c xs"
  by (induction c xs rule: well_referenced.induct) simp_all

lemma well_referenced_events:
  "well_referenced (Some i) (save_violation_events i ds)"
  by (induction ds) (simp_all add: save_violation_events_def)

lemma well_referenced_logging:
  "well_referenced c (snd (logging_logic cfg l t a p r))"
  by (cases r) (simp_all add: logging_logic_def well_referenced_events)

lemma well_referenced_process_frame:
  "well_referenced c (snd (process_frame cfg st f dets io))"
proof -
  let ?a = "routes_analyze_frame_for_ppe_status dets"
  let ?s = "snapshot_logic cfg (consecutive_violation_frames st) (snapshot_path st)
              (violations_count ?a) f (snapshot_saved io)"
  let ?l = "logging_logic cfg (last_log_time st) (current_time io) ?a (fst (snd ?s))
              (compliance_log_id io)"
  let ?m = "alerting_logic (manager st) (alert_ios io) ?a"
  let ?o = "if imencode_ok io then [YieldFrame f dets] else [Log FailedToEncodeFrame]"
  have tail: "well_referenced c' (snd ?m @ ?o)" for c'
    by (rule well_referenced_no_events) (auto dest: alerting_logic_no_write split: if_splits)
  have mid: "well_referenced c' (snd ?l @ snd ?m @ ?o)" for c'
    by (rule well_referenced_append [OF well_referenced_logging tail])
  have "well_referenced c (snd (snd ?s))"
    by (rule well_referenced_no_events) (auto dest: snapshot_logic_no_write)
  then have "well_referenced c (snd (snd ?s) @ snd ?l @ snd ?m @ ?o)"
    by (rule well_referenced_append) (rule mid)
  then show ?thesis
    by (simp only: process_frame_effects)
qed

lemma well_referenced_frames_loop:
  "well_referenced c (fst (frames_loop cfg st ios))"
proof (induction ios arbitrary: st c)
  case Nil
  then show ?case by simp
next
  case (Cons io ios)
  show ?case
  proof (cases "read_frame io")
    case None
    then show ?thesis by simp
  next
    case (Some f)
    show ?thesis
    proof (cases "detect io")
      case None
      then show ?thesis using Some by simp
    next
      case (Some dets)
      have "well_referenced c (snd (process_frame cfg st f dets io)
              @ fst (frames_loop cfg (fst (process_frame cfg st f dets io)) ios))"
        by (rule well_referenced_append [OF well_referenced_process_frame]) (rule Cons.IH)
      then show ?thesis
        using \<open>read_frame io = Some f\<close> Some by (simp add: split_beta)
    qed
  qed
qed

lemma process_frame_filter_events:
  "filter is_event_write (snd (process_frame cfg st f dets io))
     = filter is_event_write
         (snd (logging_logic cfg (last_log_time st) (current_time io)
           (routes_analyze_frame_for_ppe_status dets)
           (fst (snd (snapshot_logic cfg (consecutive_violation_frames st) (snapshot_path st)
              (violations_count (routes_analyze_frame_for_ppe_status dets)) f
              (snapshot_saved io))))
           (compliance_log_id io)))"
proof -
  have "filter is_event_write
          (snd (snd (snapshot_logic cfg (consecutive_violation_frames st) (snapshot_path st)
             (violations_count (routes_analyze_frame_for_ppe_status dets)) f
             (snapshot_saved io)))) = []"
    by (rule filter_none) (simp add: snapshot_logic_no_write)
  moreover have "filter is_event_write
          (snd (alerting_logic (manager st) (alert_ios io)
             (routes_analyze_frame_for_ppe_status dets))) = []"
    by (rule filter_none) (simp add: alerting_logic_no_write)
  ultimately show ?thesis
    by (simp add: process_frame_effects)
qed

text \<open>
  C10. In every run of the frame loop, every violation-event write carries the id that
  the most recent compliance-log write returned, so it follows a compliance-log write
  that succeeded. In an iteration whose compliance-log write returns no id, no
  violation-event write is made.
\<close>

theorem events_only_after_saved_log:
  "well_referenced None (fst (frames_loop cfg st ios))
   \<and> (compliance_log_id io = None \<longrightarrow>
        filter is_event_write (snd (process_frame cfg st f dets io)) = [])
   \<and> (\<forall>e \<in> set (snd (process_frame cfg st f dets io)).
        is_event_write e \<longrightarrow>
          (\<exists>i. compliance_log_id io = Some i
             \<and> e \<in> set (save_violation_events i
                   (violation_details (routes_analyze_frame_for_ppe_status dets)))))"
proof -
  have none: "filter is_event_write (snd (process_frame cfg st f dets io)) = []"
    if "compliance_log_id io = None"
    using that by (simp add: process_frame_filter_events logging_logic_def)
  have some: "\<exists>i. compliance_log_id io = Some i
      \<and> e \<in> set (save_violation_events i
            (violation_details (routes_analyze_frame_for_ppe_status dets)))"
    if "e \<in> set (snd (process_frame cfg st f dets io))" "is_event_write e" for e
  proof -
    from that have "e \<in> set (filter is_event_write (snd (process_frame cfg st f dets io)))"
      by simp
    then show ?thesis
      unfolding process_frame_filter_events
      by (cases "compliance_log_id io") (auto simp: logging_logic_def split: if_splits)
  qed
  show ?thesis
    using well_referenced_frames_loop none some by blast
qed

theorem events_only_after_saved_log_witness:
  "well_referenced None (fst (frames_loop app_config (sample_state 1000)
      [sample_frame_io 101 (Some [sample_detection ''no-helmet'']) 1006 None,
       sample_frame_io 102 (Some [sample_detection ''no-helmet'']) 1012 (Some 7)]))
   \<and> filter is_event_write (snd (process_frame app_config (sample_state 1000) 101
      [sample_detection ''no-helmet'']
      (sample_frame_io 101 (Some [sample_detection ''no-helmet'']) 1006 None))) = []"
proof -
  have "compliance_log_id
      (sample_frame_io 101 (Some [sample_detection ''no-helmet'']) 1006 None) = None"
    by (simp add: sample_frame_io_def)
  then show ?thesis
    using events_only_after_saved_log
      [of app_config "sample_state 1000"
        "[sample_frame_io 101 (Some [sample_detection ''no-helmet'']) 1006 None,
          sample_frame_io 102 (Some [sample_detection ''no-helmet'']) 1012 (Some 7)]"
        "sample_frame_io 101 (Some [sample_detection ''no-helmet'']) 1006 None"
        101 "[sample_detection ''no-helmet'']"]
    by blast
qed

section \<open>Properties of the alerting\<close>

subsection \<open>The cooldown\<close>













subsection \<open>The send attempts of a run\<close>














subsection \<open>The alert text\<close>




lemma str_contains_prepend: "str_contains s p \<Longrightarrow> str_contains (a @ s) p"
proof (induction a)
  case Nil
  then show ?case by simp
next
  case (Cons c a)
  then show ?case by simp
qed











end
